theory Spec2Isabelle
  imports Complex_Main "HOL-Library.AList"
begin


section \<open>Text\<close>

text \<open>
  Python strings are modelled as Isabelle strings. The model covers ASCII text: a
  character outside ASCII is carried as its UTF-8 bytes, which \<open>lower\<close> and \<open>strip\<close>
  leave alone (the only such character in the sources is the macron a of two table keys).
\<close>

definition lower_char :: "char \<Rightarrow> char" where
  "lower_char c =
     (case map_of (zip ''ABCDEFGHIJKLMNOPQRSTUVWXYZ'' ''abcdefghijklmnopqrstuvwxyz'') c of
        Some l \<Rightarrow> l
      | None \<Rightarrow> c)"

definition lower :: "string \<Rightarrow> string" where
  \<comment> \<open>\<open>str.lower()\<close>\<close>
  "lower s = map lower_char s"

definition is_space :: "char \<Rightarrow> bool" where
  \<comment> \<open>the ASCII characters for which \<open>str.isspace()\<close> holds: tab, line feed, vertical tab,
      form feed, carriage return, the four separators 0x1C..0x1F and the blank\<close>
  "is_space c =
     (c \<in> set [CHR 0x09, CHR 0x0A, CHR 0x0B, CHR 0x0C, CHR 0x0D,
                CHR 0x1C, CHR 0x1D, CHR 0x1E, CHR 0x1F, CHR 0x20])"

definition strip :: "string \<Rightarrow> string" where
  \<comment> \<open>\<open>str.strip()\<close> with no argument\<close>
  "strip s = rev (dropWhile is_space (rev (dropWhile is_space s)))"

fun is_substr :: "string \<Rightarrow> string \<Rightarrow> bool" where
  \<comment> \<open>\<open>a in b\<close> on strings: \<open>a\<close> starts at some position of \<open>b\<close>\<close>
  "is_substr a [] = (a = [])"
| "is_substr a (c # cs) = (take (length a) (c # cs) = a \<or> is_substr a cs)"

definition dict_get :: "('k \<times> 'v) list \<Rightarrow> 'k \<Rightarrow> 'v \<Rightarrow> 'v" where
  \<comment> \<open>\<open>d.get(key, default)\<close> on a dict written as the list of its items\<close>
  "dict_get d k dflt = (case map_of d k of Some v \<Rightarrow> v | None \<Rightarrow> dflt)"


section \<open>Name normalization\<close>

subsection \<open>create-clean-film-islands.py\<close>

definition name_mappings :: "(string \<times> string) list" where
  "name_mappings =
     [(''big island'', ''hawaii''),
      (''o'' @ [CHR 0x27] @ ''ahu'', ''oahu''),
      (''oahu'', ''oahu''),
      (''rapa nui'', ''easter island''),
      (''papua new guinea'', ''new guinea''),
      (''aotearoa'', ''new zealand''),
      (''te ika-a-m'' @ [CHR 0xC4, CHR 0x81] @ ''ui'', ''north island''),
      (''te ika-a-m'' @ [CHR 0xC4, CHR 0x81] @ ''ui / north island'', ''north island''),
      (''manono island'', ''manono''),
      (''upolu island'', ''upolu''),
      (''tanna island'', ''tanna''),
      (''bougainville island'', ''bougainville''),
      (''goulburn islands'', ''goulburn''),
      (''satawal'', ''satawal''),
      (''satawal '', ''satawal''),
      (''rapa nui '', ''easter island''),
      (''honolulu'', ''oahu''),
      (''jarvis'', ''jarvis island''),
      (''kosrae'', ''kosrae''),
      (''rotuma'', ''rotuma''),
      (''saipan'', ''saipan''),
      (''tongatapu'', ''tongatapu''),
      (''tuvalu'', ''tuvalu''),
      (''kiribati'', ''kiribati''),
      (''guam'', ''guam''),
      (''maui'', ''maui''),
      (''molokai'', ''molokai''),
      (''hawaii'', ''hawaii''),
      (''north island'', ''north island''),
      (''australia'', ''australia'')]"

definition normalize_island_name :: "string \<Rightarrow> string" where
  "normalize_island_name name =
     (let name = strip (lower name)
      in dict_get name_mappings name name)"

subsection \<open>create-film-islands.py\<close>

definition variations :: "(string \<times> string list) list" where
  "variations =
     [(''big island'', [''hawaii'', ''hawaii island'']),
      (''oahu'', [''o'' @ [CHR 0x27] @ ''ahu'', ''oahu'']),
      (''rapa nui'', [''easter island'']),
      (''papua new guinea'', [''new guinea'']),
      (''aotearoa'', [''new zealand'', ''north island'', ''south island'']),
      (''te ika-a-m'' @ [CHR 0xC4, CHR 0x81] @ ''ui'', [''north island'', ''te ika-a-maui'']),
      (''manono island'', [''manono'']),
      (''upolu island'', [''upolu'']),
      (''tanna island'', [''tanna'']),
      (''bougainville island'', [''bougainville'']),
      (''goulburn islands'', [''goulburn'']),
      (''satawal'', [''satawal island''])]"

fun first_standard :: "(string \<times> string list) list \<Rightarrow> string \<Rightarrow> string" where
  \<comment> \<open>the loop over \<open>variations.items()\<close>: the first entry that lists the name, or whose
      standard form it is, decides; the name itself when no entry does\<close>
  "first_standard [] name = name"
| "first_standard ((standard, variants) # rest) name =
     (if name \<in> set variants \<or> name = standard then standard
      else first_standard rest name)"

definition normalize_island_name_film :: "string \<Rightarrow> string" where
  "normalize_island_name_film name =
     (let name = strip (lower name)
      in first_standard variations name)"

subsection \<open>The normalization the specification describes\<close>

definition apply_alias_table :: "(string \<rightharpoonup> string) \<Rightarrow> string \<Rightarrow> string" where
  \<comment> \<open>lowercase, trim, then one lookup in an alias-to-canonical table, identity fallback\<close>
  "apply_alias_table table raw =
     (let key = strip (lower raw)
      in case table key of Some canonical \<Rightarrow> canonical | None \<Rightarrow> key)"

definition alias_table_film :: "(string \<times> string) list" where
  \<comment> \<open>the alias-to-canonical reading of \<open>variations\<close>: every variant and every standard
      form, each mapped to its standard form, in the order of the loop\<close>
  "alias_table_film =
     concat (map (\<lambda>(standard, variants). map (\<lambda>v. (v, standard)) (variants @ [standard]))
       variations)"


section \<open>Features, films and files\<close>

text \<open>
  A GeoJSON feature is a dict with the keys \<open>properties\<close> and \<open>geometry\<close>; the scripts
  read the properties \<open>name\<close>, \<open>area\<close> and \<open>region\<close> and add the provenance properties.
  A key that a dict may lack is an option: \<open>None\<close> is the absent key. A key that is
  there holds a value of its kind: a name is a string, an area a number. Areas are the
  numbers of the JSON text, compared as numbers. A feature collection is given by the
  list of its features, a film by its title and its island.
\<close>

record props =
  p_name :: "string option"
  p_area :: "rat option"
  p_region :: "string option"
  p_film_relevant :: "bool option"
  p_mentioned_in_films :: "bool option"
  p_normalized_name :: "string option"
  p_original_film_name :: "string option"

record feature =
  properties :: "props option"
  geometry :: "(rat \<times> rat) list list"

record film =
  title :: string
  island :: "string option"

datatype error = KeyError string

datatype 'a json_file = Missing | Unparsable | Parsed 'a
  \<comment> \<open>a path with no file, a file that is not JSON, a file holding the JSON value\<close>

definition load_geojson :: "'a json_file \<Rightarrow> 'a option" where
  \<comment> \<open>\<open>open\<close> and \<open>json.load\<close> inside \<open>try\<close>; every exception gives \<open>None\<close>\<close>
  "load_geojson f = (case f of Parsed islands_data \<Rightarrow> Some islands_data | _ \<Rightarrow> None)"

definition load_film_data :: "film list json_file \<Rightarrow> film list" where
  \<comment> \<open>the same for \<open>nodegoat-film-data.json\<close>; every exception gives the empty list\<close>
  "load_film_data f = (case f of Parsed films \<Rightarrow> films | _ \<Rightarrow> [])"

definition film_island :: "film \<Rightarrow> string option" where
  \<comment> \<open>the body of the loop of \<open>get_film_islands\<close>: the stripped island of a film, when
      the film has a non-empty island that is not empty after stripping\<close>
  "film_island film =
     (case island film of
        None \<Rightarrow> None
      | Some i \<Rightarrow> if i = [] then None
                  else (let island = strip i in if island = [] then None else Some island))"

definition get_film_islands :: "film list json_file \<Rightarrow> string set" where
  "get_film_islands f = set (List.map_filter film_island (load_film_data f))"

definition feature_name :: "feature \<Rightarrow> string" where
  \<comment> \<open>\<open>feature.get('properties', {}).get('name', '')\<close>\<close>
  "feature_name feature =
     (case properties feature of
        None \<Rightarrow> []
      | Some props \<Rightarrow> (case p_name props of None \<Rightarrow> [] | Some n \<Rightarrow> n))"

definition feature_area :: "feature \<Rightarrow> rat" where
  \<comment> \<open>\<open>feature.get('properties', {}).get('area', 0)\<close>\<close>
  "feature_area feature =
     (case properties feature of
        None \<Rightarrow> 0
      | Some props \<Rightarrow> (case p_area props of None \<Rightarrow> 0 | Some a \<Rightarrow> a))"

definition declared_area :: "feature \<Rightarrow> rat option" where
  \<comment> \<open>the value \<open>x['properties']['area']\<close> reads, when both keys are there\<close>
  "declared_area feature =
     (case properties feature of None \<Rightarrow> None | Some props \<Rightarrow> p_area props)"


section \<open>create-clean-film-islands.py: the filter\<close>

definition lowered_name :: "feature \<Rightarrow> string" where
  \<comment> \<open>\<open>name\<close> of lines 83 and 122\<close>
  "lowered_name feature = strip (lower (feature_name feature))"

definition canonical_key :: "feature \<Rightarrow> string" where
  \<comment> \<open>\<open>normalized_name\<close> of lines 84 and 123\<close>
  "canonical_key feature = normalize_island_name (lowered_name feature)"

definition is_target_island :: "feature \<Rightarrow> string set \<Rightarrow> bool" where
  "is_target_island feature target_islands =
     (let normalized_name = canonical_key feature
      in \<exists>target \<in> target_islands. normalize_island_name target = normalized_name)"

record group =
  g_feature :: feature
  g_area :: rat
  g_original_name :: string

definition group_step :: "string set \<Rightarrow> (string \<times> group) list \<Rightarrow> feature \<Rightarrow> (string \<times> group) list" where
  \<comment> \<open>one round of the loop of lines 120 to 132; \<open>island_groups\<close> is the list of the
      dict's items in insertion order, and assigning to a key it holds keeps the key's place\<close>
  "group_step film_islands island_groups feature =
     (if is_target_island feature film_islands then
        (let name = lowered_name feature;
             normalized_name = canonical_key feature;
             area = feature_area feature
         in if (case map_of island_groups normalized_name of
                  None \<Rightarrow> True
                | Some kept \<Rightarrow> area > g_area kept)
            then AList.update normalized_name
                   \<lparr>g_feature = feature, g_area = area, g_original_name = name\<rparr> island_groups
            else island_groups)
      else island_groups)"

definition island_groups_of :: "feature list \<Rightarrow> string set \<Rightarrow> (string \<times> group) list" where
  "island_groups_of features film_islands = foldl (group_step film_islands) [] features"

definition final_feature :: "string \<times> group \<Rightarrow> error + feature" where
  \<comment> \<open>one round of the loop of lines 138 to 147; \<open>feature['properties']\<close> raises on a
      feature without properties\<close>
  "final_feature item =
     (let normalized_name = fst item; data = snd item; feature = g_feature data
      in case properties feature of
           None \<Rightarrow> Inl (KeyError ''properties'')
         | Some props \<Rightarrow>
             Inr (feature\<lparr>properties := Some (props
               \<lparr>p_film_relevant := Some True,
                p_normalized_name := Some normalized_name,
                p_original_film_name := Some (g_original_name data)\<rparr>)\<rparr>))"

fun collect :: "('a \<Rightarrow> error + 'b) \<Rightarrow> 'a list \<Rightarrow> error + 'b list" where
  \<comment> \<open>a loop that appends one result per item and ends at the first exception\<close>
  "collect f [] = Inr []"
| "collect f (x # xs) =
     (case f x of
        Inl e \<Rightarrow> Inl e
      | Inr y \<Rightarrow> (case collect f xs of Inl e \<Rightarrow> Inl e | Inr ys \<Rightarrow> Inr (y # ys)))"

definition sort_by_area :: "feature list \<Rightarrow> error + feature list" where
  \<comment> \<open>\<open>final_features.sort(key=lambda x: x['properties']['area'], reverse=True)\<close>: the key
      is computed for every element and raises where the area is absent; the sort is
      stable, also in reverse\<close>
  "sort_by_area final_features =
     (if \<exists>x \<in> set final_features. declared_area x = None then Inl (KeyError ''area'')
      else Inr (sort_key (\<lambda>x. - feature_area x) final_features))"

definition clean_film_islands :: "feature list \<Rightarrow> string set \<Rightarrow> error + feature list" where
  \<comment> \<open>lines 117 to 150 of \<open>create_clean_film_islands\<close>: from the loaded features and the
      film islands to the sorted \<open>final_features\<close>\<close>
  "clean_film_islands features film_islands =
     (case collect final_feature (island_groups_of features film_islands) of
        Inl e \<Rightarrow> Inl e
      | Inr final_features \<Rightarrow> sort_by_area final_features)"

definition report :: "feature list \<Rightarrow> error option" where
  \<comment> \<open>the closing loop of lines 167 to 173 reads \<open>name\<close>, \<open>area\<close> and \<open>region\<close> of every
      written feature and raises at the first one that lacks a key\<close>
  "report final_features =
     (case find (\<lambda>x. case properties x of
                        None \<Rightarrow> True
                      | Some props \<Rightarrow> p_name props = None \<or> p_area props = None \<or> p_region props = None)
             final_features of
        None \<Rightarrow> None
      | Some x \<Rightarrow>
          (case properties x of
             None \<Rightarrow> Some (KeyError ''properties'')
           | Some props \<Rightarrow>
               Some (KeyError (if p_name props = None then ''name''
                               else if p_area props = None then ''area'' else ''region''))))"

record run =
  written :: "feature list option"
  outcome :: "error + string option"

definition create_clean_film_islands :: "feature list json_file \<Rightarrow> film list json_file \<Rightarrow> run" where
  \<comment> \<open>the first file is \<open>major-pacific-islands.geojson\<close>, given by the features of its
      collection, the second \<open>nodegoat-film-data.json\<close>; \<open>written\<close> is the feature list
      saved to \<open>clean-film-islands.geojson\<close>, \<open>outcome\<close> the exception that leaves the
      function or the value it returns\<close>
  "create_clean_film_islands geojson_file film_file =
     (case load_geojson geojson_file of
        None \<Rightarrow> \<lparr>written = None, outcome = Inr None\<rparr>
      | Some features \<Rightarrow>
          (let film_islands = get_film_islands film_file
           in case clean_film_islands features film_islands of
                Inl e \<Rightarrow> \<lparr>written = None, outcome = Inl e\<rparr>
              | Inr final_features \<Rightarrow>
                  (case report final_features of
                     Some e \<Rightarrow> \<lparr>written = Some final_features, outcome = Inl e\<rparr>
                   | None \<Rightarrow> \<lparr>written = Some final_features,
                               outcome = Inr (Some ''clean-film-islands.geojson'')\<rparr>)))"


section \<open>create-film-islands.py: the filter\<close>

definition key_islands :: "string list" where
  "key_islands =
     [''Fiji'', ''Samoa'', ''Tonga'', ''Tahiti'', ''New Caledonia'', ''Vanuatu'',
      ''Solomon Islands'', ''Palau'', ''Marshall Islands'', ''Kiribati'',
      ''Tuvalu'', ''Nauru'', ''Cook Islands'', ''French Polynesia'',
      ''American Samoa'', ''Guam'', ''Northern Mariana Islands'',
      ''Federated States of Micronesia'', ''Niue'', ''Tokelau'',
      ''Wallis and Futuna'', ''Pitcairn'', ''Norfolk Island'']"

definition canonical_key_film :: "feature \<Rightarrow> string" where
  \<comment> \<open>\<open>normalized_name\<close> of line 70\<close>
  "canonical_key_film feature = normalize_island_name_film (lowered_name feature)"

definition is_relevant_island :: "feature \<Rightarrow> string set \<Rightarrow> string list \<Rightarrow> bool" where
  "is_relevant_island feature film_islands key_list =
     (let name = lowered_name feature;
          normalized_name = normalize_island_name_film name
      in (\<exists>film_island \<in> film_islands. normalize_island_name_film film_island = normalized_name)
         \<or> (\<exists>key_island \<in> set key_list.
               is_substr (lower key_island) name \<or> is_substr name (lower key_island)))"

definition mentioned_in_films :: "props \<Rightarrow> string set \<Rightarrow> error + bool" where
  \<comment> \<open>the \<open>any(...)\<close> of lines 118 to 121: \<open>props['name']\<close> is read once per film island,
      so it raises on a missing name unless there is no film island\<close>
  "mentioned_in_films props film_islands =
     (if film_islands = {} then Inr False
      else case p_name props of
             None \<Rightarrow> Inl (KeyError ''name'')
           | Some name \<Rightarrow>
               Inr (\<exists>film_island \<in> film_islands.
                      normalize_island_name_film film_island = normalize_island_name_film name))"

definition relevant_feature :: "string set \<Rightarrow> feature \<Rightarrow> error + feature" where
  \<comment> \<open>lines 116 to 125, for a feature that passed \<open>is_relevant_island\<close>\<close>
  "relevant_feature film_islands feature =
     (case properties feature of
        None \<Rightarrow> Inl (KeyError ''properties'')
      | Some props \<Rightarrow>
          (case mentioned_in_films props film_islands of
             Inl e \<Rightarrow> Inl e
           | Inr mentioned \<Rightarrow>
               Inr (feature\<lparr>properties := Some (props
                 \<lparr>p_film_relevant := Some True, p_mentioned_in_films := Some mentioned\<rparr>)\<rparr>)))"

definition film_relevant_islands :: "feature list \<Rightarrow> string set \<Rightarrow> error + feature list" where
  \<comment> \<open>lines 111 to 125 of \<open>create_film_islands_geojson\<close>: the list \<open>relevant_islands\<close> that
      is saved to \<open>film-relevant-islands.geojson\<close>\<close>
  "film_relevant_islands features film_islands =
     collect (relevant_feature film_islands)
       (filter (\<lambda>feature. is_relevant_island feature film_islands key_islands) features)"


section \<open>airtable-to-baserow.py: the export of a table\<close>

text \<open>
  A record has an identifier and may have fields; a page is the JSON object of a
  response, with its records and its continuation token \<open>offset\<close>, either of which it may
  lack. A response is a status code with the body, when the body is a JSON object, unless
  the request fails in transport. The server is given by the response to the \<open>n\<close>-th
  request of the export (counted from 0), which carries the token of the page before,
  or none when it is the first.
\<close>

record airtable_record =
  rec_id :: string
  rec_fields :: "(string \<times> string) list option"

record page =
  records :: "airtable_record list option"
  offset :: "string option"

datatype response =
    Response nat "page option"
  | ConnectionError

type_synonym server = "nat \<Rightarrow> string option \<Rightarrow> response"

definition page_records :: "page \<Rightarrow> airtable_record list" where
  \<comment> \<open>\<open>data.get('records', [])\<close>\<close>
  "page_records data = (case records data of None \<Rightarrow> [] | Some rs \<Rightarrow> rs)"

definition truthy :: "string option \<Rightarrow> bool" where
  \<comment> \<open>the test \<open>if offset\<close> and \<open>while offset\<close>: neither \<open>None\<close> nor the empty string\<close>
  "truthy token = (case token of None \<Rightarrow> False | Some t \<Rightarrow> t \<noteq> [])"

datatype loop_exit =
  \<comment> \<open>how the loop ends: the records gathered and the requests made when control
      leaves it by its test or by \<open>break\<close>, or the requests made when an exception leaves it\<close>
    Left_loop "airtable_record list" nat
  | Raised nat

text \<open>
  The loop of lines 122 to 144, entered with \<open>n\<close> requests made so far. A response that
  is not JSON makes \<open>response.json()\<close> raise, a failed connection makes \<open>requests.get\<close>
  raise; a status other than 200 leaves the loop by \<open>break\<close>. The loop runs for as long as
  the server hands out tokens, so it is a partial function.
\<close>

partial_function (option) fetch_loop ::
  "server \<Rightarrow> nat \<Rightarrow> string option \<Rightarrow> airtable_record list \<Rightarrow> loop_exit option" where
  "fetch_loop server n token all_records =
     (if truthy token then
        (case server n token of
           ConnectionError \<Rightarrow> Some (Raised (Suc n))
         | Response status_code body \<Rightarrow>
             if status_code = 200 then
               (case body of
                  None \<Rightarrow> Some (Raised (Suc n))
                | Some data \<Rightarrow>
                    fetch_loop server (Suc n) (offset data) (all_records @ page_records data))
             else Some (Left_loop all_records (Suc n)))
      else Some (Left_loop all_records n))"

definition row_of :: "airtable_record \<Rightarrow> (string \<times> string) list" where
  \<comment> \<open>\<open>row = {'id': record['id']}\<close>, then \<open>row.update(record.get('fields', {}))\<close>\<close>
  "row_of r =
     fold (\<lambda>(k, v). AList.update k v) (case rec_fields r of None \<Rightarrow> [] | Some fs \<Rightarrow> fs)
       [(''id'', rec_id r)]"

record export =
  returned :: "airtable_record list"
  json_written :: "airtable_record list option"
  csv_written :: "(string \<times> string) list list option"
  requests :: nat

definition nothing_exported :: "nat \<Rightarrow> export" where
  \<comment> \<open>\<open>return []\<close> before anything is written: after a first response that is not 200, and
      in the handler of \<open>except Exception\<close>\<close>
  "nothing_exported n = \<lparr>returned = [], json_written = None, csv_written = None, requests = n\<rparr>"

definition export_table_data :: "server \<Rightarrow> export option" where
  \<comment> \<open>the body of \<open>try\<close> and its handler. The clock, the progress bar and the file system
      are left out: the elapsed time of line 150 is taken to be positive and the two files
      to be writable. \<open>None\<close> is the export that never returns\<close>
  "export_table_data server =
     (case server 0 None of
        ConnectionError \<Rightarrow> Some (nothing_exported 1)
      | Response status_code body \<Rightarrow>
          if status_code \<noteq> 200 then Some (nothing_exported 1)
          else
            (case body of
               None \<Rightarrow> Some (nothing_exported 1)
             | Some first_data \<Rightarrow>
                 (case fetch_loop server 1 (offset first_data) (page_records first_data) of
                    None \<Rightarrow> None
                  | Some (Raised n) \<Rightarrow> Some (nothing_exported n)
                  | Some (Left_loop all_records n) \<Rightarrow>
                      Some \<lparr>returned = all_records,
                            json_written = Some all_records,
                            csv_written = (if all_records \<noteq> [] then Some (map row_of all_records)
                                           else None),
                            requests = n\<rparr>)))"


section \<open>The access token\<close>

text \<open>
  Both constructors read \<open>AIRTABLE_API_KEY\<close> with \<open>os.getenv\<close>, which gives \<open>None\<close> for a
  variable that is not set. They are functions of that value alone: a request is issued
  only by the methods of the object they construct.
\<close>

datatype config_error = ValueError string

definition startswith :: "string \<Rightarrow> string \<Rightarrow> bool" where
  \<comment> \<open>\<open>s.startswith(prefix)\<close>\<close>
  "startswith s prefix = (take (length prefix) s = prefix)"

definition airtable_explorer_init :: "string option \<Rightarrow> config_error + string" where
  \<comment> \<open>\<open>AirtableExplorer.__init__\<close> of airtable-explorer.py, up to the last \<open>raise\<close>: from the
      value of \<open>os.getenv('AIRTABLE_API_KEY')\<close> to the \<open>api_key\<close> of the object\<close>
  "airtable_explorer_init env =
     (case env of
        None \<Rightarrow> Inl (ValueError ''AIRTABLE_API_KEY not found in .env file'')
      | Some api_key \<Rightarrow>
          if api_key = [] then Inl (ValueError ''AIRTABLE_API_KEY not found in .env file'')
          else if \<not> startswith api_key ''pat''
          then Inl (ValueError (''Invalid API key format. Should start with '' @ [CHR 0x27] @ ''pat'' @ [CHR 0x27]))
          else Inr api_key)"

definition airtable_to_baserow_init :: "string option \<Rightarrow> config_error + string" where
  \<comment> \<open>\<open>AirtableToBaseRow.__init__\<close> of airtable-to-baserow.py, likewise\<close>
  "airtable_to_baserow_init env =
     (case env of
        None \<Rightarrow> Inl (ValueError ''AIRTABLE_API_KEY not found in environment'')
      | Some api_key \<Rightarrow>
          if api_key = [] then Inl (ValueError ''AIRTABLE_API_KEY not found in environment'')
          else Inr api_key)"


section \<open>Notions for the properties\<close>

subsection \<open>Of the filter\<close>

definition candidates :: "string set \<Rightarrow> string \<Rightarrow> feature list \<Rightarrow> feature list" where
  \<comment> \<open>the features that match a film island and normalize to the key, in input order\<close>
  "candidates film_islands key features =
     filter (\<lambda>f. is_target_island f film_islands \<and> canonical_key f = key) features"

definition group_of :: "feature \<Rightarrow> group" where
  \<comment> \<open>the entry that line 128 stores for a feature\<close>
  "group_of w = \<lparr>g_feature = w, g_area = feature_area w, g_original_name = lowered_name w\<rparr>"

definition first_largest :: "feature list \<Rightarrow> feature \<Rightarrow> bool" where
  \<comment> \<open>\<open>w\<close> occurs in \<open>cs\<close>, larger than all before it and at least as large as all after it\<close>
  "first_largest cs w =
     (\<exists>pre post. cs = pre @ w # post
        \<and> (\<forall>g \<in> set pre. feature_area g < feature_area w)
        \<and> (\<forall>g \<in> set post. feature_area g \<le> feature_area w))"

definition groups_ok :: "string set \<Rightarrow> feature list \<Rightarrow> (string \<times> group) list \<Rightarrow> bool" where
  \<comment> \<open>the invariant of the loop of lines 120 to 132 after the features \<open>fs\<close>\<close>
  "groups_ok T fs G =
     (distinct (map fst G)
      \<and> (\<forall>k. case map_of G k of
                None \<Rightarrow> candidates T k fs = []
              | Some d \<Rightarrow> \<exists>w. d = group_of w \<and> first_largest (candidates T k fs) w))"

definition with_provenance :: "feature \<Rightarrow> feature" where
  \<comment> \<open>a feature with the three provenance properties of lines 141 to 143 added\<close>
  "with_provenance w =
     w\<lparr>properties := map_option (\<lambda>props. props
        \<lparr>p_film_relevant := Some True,
         p_normalized_name := Some (canonical_key w),
         p_original_film_name := Some (lowered_name w)\<rparr>) (properties w)\<rparr>"

definition winners :: "feature list \<Rightarrow> string set \<Rightarrow> feature list" where
  \<comment> \<open>the features held by \<open>island_groups\<close> after the loop, in the order of the dict\<close>
  "winners features film_islands = map (\<lambda>item. g_feature (snd item)) (island_groups_of features film_islands)"

subsection \<open>Of the export\<close>

definition status_of :: "response \<Rightarrow> nat option" where
  \<comment> \<open>\<open>response.status_code\<close>, when there is a response\<close>
  "status_of r = (case r of Response status_code _ \<Rightarrow> Some status_code | ConnectionError \<Rightarrow> None)"

text \<open>
  \<open>exchange server n token ps ending\<close>: from request \<open>n\<close> on, which carries \<open>token\<close>, the server
  serves the pages \<open>ps\<close>, one per request and each asked for with the token of the one
  before; then the token is absent or empty (\<open>ending = None\<close>), or the next request is
  answered with a status other than 200 (\<open>ending = Some status_code\<close>).
\<close>

fun exchange :: "server \<Rightarrow> nat \<Rightarrow> string option \<Rightarrow> page list \<Rightarrow> nat option \<Rightarrow> bool" where
  "exchange server n token [] None = (\<not> truthy token)"
| "exchange server n token [] (Some status_code) =
     (truthy token \<and> status_code \<noteq> 200 \<and> status_of (server n token) = Some status_code)"
| "exchange server n token (p # ps) ending =
     (truthy token \<and> server n token = Response 200 (Some p)
      \<and> exchange server (Suc n) (offset p) ps ending)"

definition requests_of :: "page list \<Rightarrow> nat option \<Rightarrow> nat" where
  \<comment> \<open>the number of requests of such an exchange\<close>
  "requests_of ps ending = length ps + (case ending of None \<Rightarrow> 0 | Some _ \<Rightarrow> 1)"

definition exit_of_exchange ::
  "server \<Rightarrow> nat \<Rightarrow> string option \<Rightarrow> airtable_record list \<Rightarrow> loop_exit \<Rightarrow> bool" where
  \<comment> \<open>an exit of the loop without exception comes from an exchange\<close>
  "exit_of_exchange server n token acc r =
     (case r of
        Raised m \<Rightarrow> True
      | Left_loop all_records m \<Rightarrow>
          \<exists>ps ending. exchange server n token ps ending
            \<and> all_records = acc @ concat (map page_records ps)
            \<and> m = n + requests_of ps ending)"


section \<open>Example data\<close>

definition example_feature :: "string \<Rightarrow> rat \<Rightarrow> feature" where
  "example_feature name area =
     \<lparr>properties = Some \<lparr>p_name = Some name, p_area = Some area, p_region = Some ''Polynesia'',
        p_film_relevant = None, p_mentioned_in_films = None, p_normalized_name = None,
        p_original_film_name = None\<rparr>,
      geometry = [[(0, 0), (1, 0), (0, 1)]]\<rparr>"

definition example_features :: "feature list" where
  "example_features =
     [example_feature ''Easter Island'' 163.6, example_feature ''Rapa Nui'' 163.6,
      example_feature ''Oahu'' 1545, example_feature ''Tahiti'' 1045]"

definition example_film_islands :: "string set" where
  "example_film_islands = {''Rapa Nui'', ''Honolulu''}"

definition example_films :: "film list" where
  "example_films =
     [\<lparr>title = ''Rapa Nui'', island = Some ''Rapa Nui ''\<rparr>,
      \<lparr>title = ''Blue Hawaii'', island = Some ''Honolulu''\<rparr>,
      \<lparr>title = ''Untitled'', island = None\<rparr>,
      \<lparr>title = ''At sea'', island = Some ''  ''\<rparr>]"

definition example_output :: "feature list" where
  "example_output =
     [with_provenance (example_feature ''Oahu'' 1545),
      with_provenance (example_feature ''Easter Island'' 163.6)]"

definition example_tahiti_output :: feature where
  "example_tahiti_output =
     \<lparr>properties = Some \<lparr>p_name = Some ''Tahiti'', p_area = Some 1045, p_region = Some ''Polynesia'',
        p_film_relevant = Some True, p_mentioned_in_films = Some False, p_normalized_name = None,
        p_original_film_name = None\<rparr>,
      geometry = [[(0, 0), (1, 0), (0, 1)]]\<rparr>"

definition example_record :: airtable_record where
  "example_record = \<lparr>rec_id = ''rec0001'', rec_fields = Some [(''Title'', ''Moana'')]\<rparr>"

definition example_page1 :: page where
  "example_page1 = \<lparr>records = Some (replicate 100 example_record), offset = Some ''itr1/rec100''\<rparr>"

definition example_page2 :: page where
  "example_page2 = \<lparr>records = Some (replicate 37 example_record), offset = None\<rparr>"

definition example_short_page :: page where
  "example_short_page = \<lparr>records = Some [example_record, example_record], offset = Some ''itr1/rec2''\<rparr>"

definition example_server :: server where
  \<comment> \<open>a table of 137 records served in two pages\<close>
  "example_server n token =
     (if n = 0 \<and> token = None then
        Response 200 (Some \<lparr>records = Some (replicate 100 example_record), offset = Some ''itr1/rec100''\<rparr>)
      else if token = Some ''itr1/rec100'' then
        Response 200 (Some \<lparr>records = Some (replicate 37 example_record), offset = None\<rparr>)
      else Response 422 None)"

definition example_failing_server :: server where
  \<comment> \<open>the first page is served, the request for the second is refused\<close>
  "example_failing_server n token =
     (if n = 0 \<and> token = None then
        Response 200 (Some \<lparr>records = Some [example_record, example_record], offset = Some ''itr1/rec2''\<rparr>)
      else Response 429 None)"


section \<open>Properties of the normalization\<close>

lemma name_mappings_distinct: "distinct (map fst name_mappings)"
  by (simp add: name_mappings_def)

lemma first_standard_map_of:
  "first_standard vs name =
     (case map_of (concat (map (\<lambda>(standard, variants).
              map (\<lambda>v. (v, standard)) (variants @ [standard])) vs)) name of
        Some canonical \<Rightarrow> canonical
      | None \<Rightarrow> name)"
proof (induction vs)
  case Nil
  show ?case by simp
next
  case (Cons entry vs)
  obtain standard variants where entry: "entry = (standard, variants)"
    by (cases entry)
  have group: "map_of (map (\<lambda>v. (v, standard)) (variants @ [standard])) name =
      (if name \<in> set variants \<or> name = standard then Some standard else None)"
    by (induction variants) auto
  show ?case
    using Cons.IH by (simp add: entry map_add_def group del: map_append)
qed

lemma lower_char_idem: "lower_char (lower_char c) = lower_char c"
  by (simp add: lower_char_def)

lemma is_space_lower_char: "is_space (lower_char c) = is_space c"
  by (simp add: lower_char_def is_space_def)

lemma lower_idem: "lower (lower s) = lower s"
  by (simp add: lower_def lower_char_idem)

lemma strip_lower: "strip (lower s) = lower (strip s)"
proof -
  have "is_space \<circ> lower_char = is_space"
    by (rule ext) (simp add: is_space_lower_char)
  then show ?thesis
    by (simp add: strip_def lower_def dropWhile_map rev_map)
qed

lemma dropWhile_suffix_head:
  assumes "dropWhile P u = u"
  shows "dropWhile P (rev (dropWhile P (rev u))) = rev (dropWhile P (rev u))"
proof (cases "dropWhile P (rev u) = []")
  case True
  show ?thesis unfolding True by simp
next
  case False
  obtain w where w: "rev u = w @ dropWhile P (rev u)"
    by (metis takeWhile_dropWhile_id)
  then have u: "u = rev (dropWhile P (rev u)) @ rev w"
    by (metis rev_append rev_rev_ident)
  have "u \<noteq> []" using False by auto
  then have "\<not> P (hd u)" using assms by (metis hd_dropWhile)
  moreover have "hd u = hd (rev (dropWhile P (rev u)))"
    using u False by (metis hd_append2 rev_is_Nil_conv)
  ultimately show ?thesis
    using False by (metis dropWhile.simps(2) list.collapse rev_is_Nil_conv)
qed

lemma strip_idem: "strip (strip s) = strip s"
proof -
  let ?u = "dropWhile is_space s"
  have "dropWhile is_space ?u = ?u" by (simp add: dropWhile_idem)
  then have "dropWhile is_space (strip s) = strip s"
    unfolding strip_def by (rule dropWhile_suffix_head)
  then show ?thesis
    by (simp add: strip_def dropWhile_idem)
qed

lemma lowered_twice: "strip (lower (strip (lower s))) = strip (lower s)"
  by (simp add: strip_lower lower_idem strip_idem)

lemma normalize_lowered: "normalize_island_name (strip (lower s)) = normalize_island_name s"
  by (simp add: normalize_island_name_def lowered_twice)

lemma normalize_film_lowered: "normalize_island_name_film (strip (lower s)) = normalize_island_name_film s"
  by (simp add: normalize_island_name_film_def lowered_twice)

text \<open>
  C3. Normalization is a function of the raw name alone: the name is lowercased, then
  trimmed, then looked up once in a fixed alias table, and a key the table does not
  hold is returned as it is. Each of the two scripts has its own fixed table.
\<close>

theorem normalize_island_name_is_table_lookup:
  "normalize_island_name raw = apply_alias_table (map_of name_mappings) raw
   \<and> normalize_island_name_film raw = apply_alias_table (map_of alias_table_film) raw
   \<and> (map_of name_mappings (strip (lower raw)) = None \<longrightarrow>
        normalize_island_name raw = strip (lower raw))
   \<and> (map_of alias_table_film (strip (lower raw)) = None \<longrightarrow>
        normalize_island_name_film raw = strip (lower raw))"
  by (simp add: normalize_island_name_def normalize_island_name_film_def apply_alias_table_def
      dict_get_def Let_def alias_table_film_def first_standard_map_of)

theorem normalize_island_name_is_table_lookup_witness:
  "map_of name_mappings (strip (lower '' Fiji '')) = None
   \<and> map_of alias_table_film (strip (lower '' Fiji '')) = None
   \<and> normalize_island_name '' Fiji '' = ''fiji''
   \<and> normalize_island_name_film '' Fiji '' = ''fiji''"
proof -
  have key: "strip (lower '' Fiji '') = ''fiji''"
    by (simp add: strip_def lower_def lower_char_def is_space_def)
  have h1: "map_of name_mappings ''fiji'' = None"
    by (simp add: name_mappings_def)
  have h2: "map_of alias_table_film ''fiji'' = None"
    by (simp add: alias_table_film_def variations_def)
  show ?thesis
    using normalize_island_name_is_table_lookup [of "'' Fiji ''"] h1 h2
    unfolding key by blast
qed


section \<open>The loop over the features\<close>

lemma first_largest_single: "first_largest [f] f"
  unfolding first_largest_def by (rule exI [of _ "[]"], rule exI [of _ "[]"]) simp

lemma first_largest_keep:
  assumes "first_largest cs w" and "feature_area f \<le> feature_area w"
  shows "first_largest (cs @ [f]) w"
proof -
  from assms(1) obtain pre post where
    cs: "cs = pre @ w # post"
    and pre: "\<forall>g \<in> set pre. feature_area g < feature_area w"
    and post: "\<forall>g \<in> set post. feature_area g \<le> feature_area w"
    unfolding first_largest_def by blast
  have "cs @ [f] = pre @ w # (post @ [f])" by (simp add: cs)
  moreover have "\<forall>g \<in> set (post @ [f]). feature_area g \<le> feature_area w"
    using post assms(2) by simp
  ultimately show ?thesis unfolding first_largest_def using pre by blast
qed

lemma first_largest_replace:
  assumes "first_largest cs w" and "feature_area w < feature_area f"
  shows "first_largest (cs @ [f]) f"
proof -
  from assms(1) obtain pre post where
    cs: "cs = pre @ w # post"
    and pre: "\<forall>g \<in> set pre. feature_area g < feature_area w"
    and post: "\<forall>g \<in> set post. feature_area g \<le> feature_area w"
    unfolding first_largest_def by blast
  have "\<forall>g \<in> set cs. feature_area g < feature_area f"
    using pre post assms(2) by (auto simp: cs)
  moreover have "cs @ [f] = cs @ f # []" by simp
  ultimately show ?thesis unfolding first_largest_def by (metis empty_iff empty_set)
qed

lemma first_largest_member: "first_largest cs w \<Longrightarrow> w \<in> set cs"
  by (auto simp: first_largest_def)

lemma candidates_snoc:
  "candidates T k (fs @ [f]) =
     (if is_target_island f T \<and> canonical_key f = k then candidates T k fs @ [f]
      else candidates T k fs)"
  by (simp add: candidates_def)

lemma candidates_member:
  "w \<in> set (candidates T k fs) \<longleftrightarrow> w \<in> set fs \<and> is_target_island w T \<and> canonical_key w = k"
  by (auto simp: candidates_def)

lemma group_step_ok:
  assumes "groups_ok T fs G"
  shows "groups_ok T (fs @ [f]) (group_step T G f)"
proof (cases "is_target_island f T")
  case False
  then show ?thesis
    using assms by (simp add: groups_ok_def group_step_def candidates_snoc cong: option.case_cong)
next
  case True
  let ?k = "canonical_key f"
  have dist: "distinct (map fst G)" using assms by (simp add: groups_ok_def)
  have look: "\<And>k. case map_of G k of
                None \<Rightarrow> candidates T k fs = []
              | Some d \<Rightarrow> \<exists>w. d = group_of w \<and> first_largest (candidates T k fs) w"
    using assms by (simp add: groups_ok_def)
  show ?thesis
  proof (cases "map_of G ?k")
    case None
    then have "candidates T ?k fs = []" using look [of ?k] by simp
    then have new: "first_largest (candidates T ?k (fs @ [f])) f"
      using True by (simp add: candidates_snoc first_largest_single)
    have step: "group_step T G f = AList.update ?k (group_of f) G"
      using True None by (simp add: group_step_def group_of_def)
    show ?thesis
      unfolding groups_ok_def step
    proof (intro conjI allI)
      show "distinct (map fst (AList.update ?k (group_of f) G))"
        using dist by (simp add: distinct_update)
    next
      fix k
      show "case map_of (AList.update ?k (group_of f) G) k of
              None \<Rightarrow> candidates T k (fs @ [f]) = []
            | Some d \<Rightarrow> \<exists>w. d = group_of w \<and> first_largest (candidates T k (fs @ [f])) w"
      proof (cases "k = ?k")
        case True
        then show ?thesis using new by (auto simp: update_conv')
      next
        case False
        then show ?thesis using look [of k] by (simp add: update_conv' candidates_snoc cong: option.case_cong)
      qed
    qed
  next
    case (Some kept)
    then obtain w where kept: "kept = group_of w"
      and w: "first_largest (candidates T ?k fs) w"
      using look [of ?k] by auto
    show ?thesis
    proof (cases "feature_area f > feature_area w")
      case bigger: True
      have step: "group_step T G f = AList.update ?k (group_of f) G"
        using True Some bigger by (simp add: group_step_def group_of_def kept)
      have new: "first_largest (candidates T ?k (fs @ [f])) f"
        using True w bigger by (simp add: candidates_snoc first_largest_replace)
      show ?thesis
        unfolding groups_ok_def step
      proof (intro conjI allI)
        show "distinct (map fst (AList.update ?k (group_of f) G))"
          using dist by (simp add: distinct_update)
      next
        fix k
        show "case map_of (AList.update ?k (group_of f) G) k of
                None \<Rightarrow> candidates T k (fs @ [f]) = []
              | Some d \<Rightarrow> \<exists>w. d = group_of w \<and> first_largest (candidates T k (fs @ [f])) w"
        proof (cases "k = ?k")
          case True
          then show ?thesis using new by (auto simp: update_conv')
        next
          case False
          then show ?thesis using look [of k] by (simp add: update_conv' candidates_snoc cong: option.case_cong)
        qed
      qed
    next
      case smaller: False
      have step: "group_step T G f = G"
        using True Some smaller by (simp add: group_step_def group_of_def kept)
      have new: "first_largest (candidates T ?k (fs @ [f])) w"
        using True w smaller by (simp add: candidates_snoc first_largest_keep)
      show ?thesis
        unfolding groups_ok_def step
      proof (intro conjI allI)
        show "distinct (map fst G)" by (rule dist)
      next
        fix k
        show "case map_of G k of
                None \<Rightarrow> candidates T k (fs @ [f]) = []
              | Some d \<Rightarrow> \<exists>w. d = group_of w \<and> first_largest (candidates T k (fs @ [f])) w"
        proof (cases "k = ?k")
          case True
          then show ?thesis using new Some kept by auto
        next
          case False
          then show ?thesis using look [of k] by (simp add: candidates_snoc cong: option.case_cong)
        qed
      qed
    qed
  qed
qed

lemma island_groups_ok: "groups_ok T fs (island_groups_of fs T)"
proof (induction fs rule: rev_induct)
  case Nil
  show ?case by (simp add: groups_ok_def island_groups_of_def candidates_def)
next
  case (snoc f fs)
  then show ?case by (simp add: island_groups_of_def group_step_ok)
qed

lemma groups_ok_distinct: "groups_ok T fs G \<Longrightarrow> distinct (map fst G)"
  by (simp add: groups_ok_def)

lemma groups_ok_Some:
  "groups_ok T fs G \<Longrightarrow> map_of G k = Some d \<Longrightarrow>
     \<exists>w. d = group_of w \<and> first_largest (candidates T k fs) w"
  unfolding groups_ok_def by (erule conjE, erule allE [of _ k]) simp

lemma groups_ok_None:
  "groups_ok T fs G \<Longrightarrow> map_of G k = None \<Longrightarrow> candidates T k fs = []"
  unfolding groups_ok_def by (erule conjE, erule allE [of _ k]) simp

lemma group_item:
  assumes "(k, d) \<in> set (island_groups_of fs T)"
  shows "d = group_of (g_feature d) \<and> first_largest (candidates T k fs) (g_feature d)"
proof -
  have ok: "groups_ok T fs (island_groups_of fs T)" by (rule island_groups_ok)
  have "map_of (island_groups_of fs T) k = Some d"
    using assms groups_ok_distinct [OF ok] by simp
  then obtain w where "d = group_of w" "first_largest (candidates T k fs) w"
    using groups_ok_Some [OF ok] by blast
  then show ?thesis by (simp add: group_of_def)
qed

lemma update_fresh: "k \<notin> fst ` set al \<Longrightarrow> AList.update k v al = al @ [(k, v)]"
  by (induction al) auto

lemma island_groups_fresh:
  assumes "\<forall>x \<in> set xs. is_target_island x T" and "distinct (map canonical_key xs)"
  shows "island_groups_of xs T = map (\<lambda>x. (canonical_key x, group_of x)) xs"
  using assms
proof (induction xs rule: rev_induct)
  case Nil
  show ?case by (simp add: island_groups_of_def)
next
  case (snoc x xs)
  have prev: "island_groups_of xs T = map (\<lambda>x. (canonical_key x, group_of x)) xs"
    using snoc by simp
  have fresh: "canonical_key x \<notin> fst ` set (island_groups_of xs T)"
    using snoc.prems(2) by (auto simp: prev)
  then have none: "map_of (island_groups_of xs T) (canonical_key x) = None"
    by (simp add: map_of_eq_None_iff)
  have "island_groups_of (xs @ [x]) T = group_step T (island_groups_of xs T) x"
    by (simp add: island_groups_of_def)
  also have "\<dots> = AList.update (canonical_key x) (group_of x) (island_groups_of xs T)"
    using snoc.prems(1) none by (simp add: group_step_def group_of_def)
  also have "\<dots> = island_groups_of xs T @ [(canonical_key x, group_of x)]"
    using fresh by (rule update_fresh)
  finally show ?case by (simp add: prev)
qed


section \<open>The output of the filter\<close>

lemma winners_keys: "map canonical_key (winners fs T) = map fst (island_groups_of fs T)"
proof -
  have "\<forall>item \<in> set (island_groups_of fs T). canonical_key (g_feature (snd item)) = fst item"
    using group_item first_largest_member candidates_member
    by (metis prod.collapse)
  then show ?thesis by (simp add: winners_def)
qed

lemma winners_distinct: "distinct (map canonical_key (winners fs T))"
  using groups_ok_distinct [OF island_groups_ok] by (simp add: winners_keys)

lemma winners_first_largest:
  assumes "w \<in> set (winners fs T)"
  shows "first_largest (candidates T (canonical_key w) fs) w"
proof -
  from assms obtain k d where item: "(k, d) \<in> set (island_groups_of fs T)" and w: "w = g_feature d"
    by (auto simp: winners_def)
  have fl: "first_largest (candidates T k fs) w" using group_item [OF item] w by simp
  then have "canonical_key w = k" using first_largest_member candidates_member by blast
  then show ?thesis using fl by simp
qed

lemma winners_target: "w \<in> set (winners fs T) \<Longrightarrow> w \<in> set fs \<and> is_target_island w T"
  using winners_first_largest first_largest_member candidates_member by blast

lemma winners_cover:
  assumes "f \<in> set fs" and "is_target_island f T"
  shows "canonical_key f \<in> canonical_key ` set (winners fs T)"
proof -
  have "candidates T (canonical_key f) fs \<noteq> []"
    using assms candidates_member [of f T "canonical_key f" fs] by auto
  then have "map_of (island_groups_of fs T) (canonical_key f) \<noteq> None"
    using groups_ok_None [OF island_groups_ok] by blast
  then have "canonical_key f \<in> fst ` set (island_groups_of fs T)"
    by (simp add: map_of_eq_None_iff)
  then have "canonical_key f \<in> set (map canonical_key (winners fs T))"
    by (simp add: winners_keys)
  then show ?thesis by simp
qed

lemma winner_matches:
  assumes "w \<in> set (winners fs T)"
  shows "\<exists>target \<in> T. normalize_island_name target = canonical_key w"
  using winners_target [OF assms] by (simp add: is_target_island_def)

lemma final_feature_group:
  "final_feature (canonical_key w, group_of w) =
     (if properties w = None then Inl (KeyError ''properties'') else Inr (with_provenance w))"
  by (auto simp: final_feature_def group_of_def with_provenance_def Let_def)

lemma collect_all_Inr:
  "(\<forall>x \<in> set xs. f x = Inr (g x)) \<Longrightarrow> collect f xs = Inr (map g xs)"
  by (induction xs) auto

lemma collect_Inr_D:
  "collect f xs = Inr ys \<Longrightarrow> \<forall>x \<in> set xs. \<exists>y. f x = Inr y"
  by (induction xs arbitrary: ys) (auto split: sum.splits)

lemma collect_Inr_member:
  "collect f xs = Inr ys \<Longrightarrow> y \<in> set ys \<Longrightarrow> \<exists>x \<in> set xs. f x = Inr y"
  by (induction xs arbitrary: ys) (auto split: sum.splits)

lemma final_feature_item:
  assumes "item \<in> set (island_groups_of fs T)"
  shows "final_feature item =
     (if properties (g_feature (snd item)) = None then Inl (KeyError ''properties'')
      else Inr (with_provenance (g_feature (snd item))))"
proof -
  obtain k d where item: "item = (k, d)" by (cases item)
  have d: "d = group_of (g_feature d)" and fl: "first_largest (candidates T k fs) (g_feature d)"
    using group_item assms item by blast+
  have "canonical_key (g_feature d) = k"
    using fl first_largest_member candidates_member by blast
  then show ?thesis
    using final_feature_group [of "g_feature d"] d by (simp add: item)
qed

lemma collect_final_feature:
  assumes "\<forall>w \<in> set (winners fs T). properties w \<noteq> None"
  shows "collect final_feature (island_groups_of fs T) = Inr (map with_provenance (winners fs T))"
proof -
  have "\<forall>item \<in> set (island_groups_of fs T).
      final_feature item = Inr (with_provenance (g_feature (snd item)))"
    using assms final_feature_item by (fastforce simp: winners_def)
  then have "collect final_feature (island_groups_of fs T) =
      Inr (map (\<lambda>item. with_provenance (g_feature (snd item))) (island_groups_of fs T))"
    by (rule collect_all_Inr)
  then show ?thesis by (simp add: winners_def comp_def)
qed

lemma collect_final_feature_Inr:
  assumes "collect final_feature (island_groups_of fs T) = Inr ys"
  shows "ys = map with_provenance (winners fs T) \<and> (\<forall>w \<in> set (winners fs T). properties w \<noteq> None)"
proof -
  have "\<forall>item \<in> set (island_groups_of fs T). properties (g_feature (snd item)) \<noteq> None"
  proof
    fix item assume item: "item \<in> set (island_groups_of fs T)"
    then obtain y where "final_feature item = Inr y"
      using collect_Inr_D [OF assms] by blast
    then show "properties (g_feature (snd item)) \<noteq> None"
      using final_feature_item [OF item] by (auto split: if_splits)
  qed
  then have all: "\<forall>w \<in> set (winners fs T). properties w \<noteq> None"
    by (simp add: winners_def)
  then show ?thesis using collect_final_feature [OF all] assms by simp
qed

lemma declared_area_with_provenance [simp]:
  "declared_area (with_provenance w) = declared_area w"
  by (simp add: declared_area_def with_provenance_def split: option.splits)

lemma feature_area_with_provenance [simp]:
  "feature_area (with_provenance w) = feature_area w"
  by (simp add: feature_area_def with_provenance_def split: option.splits)

lemma feature_name_with_provenance [simp]:
  "feature_name (with_provenance w) = feature_name w"
  by (simp add: feature_name_def with_provenance_def split: option.splits)

lemma canonical_key_with_provenance [simp]:
  "canonical_key (with_provenance w) = canonical_key w"
  by (simp add: canonical_key_def lowered_name_def)

lemma lowered_name_with_provenance [simp]:
  "lowered_name (with_provenance w) = lowered_name w"
  by (simp add: lowered_name_def)

lemma is_target_with_provenance [simp]:
  "is_target_island (with_provenance w) T = is_target_island w T"
  by (simp add: is_target_island_def)

lemma with_provenance_twice [simp]:
  "with_provenance (with_provenance w) = with_provenance w"
  by (cases "properties w") (simp_all add: with_provenance_def canonical_key_def lowered_name_def feature_name_def)

lemma clean_film_islands_Inr:
  assumes "clean_film_islands fs T = Inr out"
  shows "out = sort_key (\<lambda>x. - feature_area x) (map with_provenance (winners fs T))
         \<and> (\<forall>w \<in> set (winners fs T). declared_area w \<noteq> None)"
proof -
  from assms obtain ys where ys: "collect final_feature (island_groups_of fs T) = Inr ys"
    and sorted: "sort_by_area ys = Inr out"
    by (auto simp: clean_film_islands_def split: sum.splits)
  have ys_eq: "ys = map with_provenance (winners fs T)"
    using collect_final_feature_Inr [OF ys] by simp
  show ?thesis
    using sorted by (auto simp: sort_by_area_def ys_eq split: if_splits)
qed

lemma clean_film_islands_total:
  assumes "\<forall>w \<in> set (winners fs T). declared_area w \<noteq> None"
  shows "clean_film_islands fs T = Inr (sort_key (\<lambda>x. - feature_area x) (map with_provenance (winners fs T)))"
proof -
  have "\<forall>w \<in> set (winners fs T). properties w \<noteq> None"
    using assms by (fastforce simp: declared_area_def split: option.splits)
  then have "collect final_feature (island_groups_of fs T) = Inr (map with_provenance (winners fs T))"
    by (rule collect_final_feature)
  then show ?thesis
    using assms by (simp add: clean_film_islands_def sort_by_area_def)
qed

lemma set_clean_output:
  assumes "clean_film_islands fs T = Inr out"
  shows "set out = with_provenance ` set (winners fs T)"
  using clean_film_islands_Inr [OF assms] by simp

lemma sorted_descending:
  "sorted_wrt (\<lambda>x y. feature_area y \<le> feature_area x) (sort_key (\<lambda>x. - feature_area x) xs)"
proof -
  have "sorted (map (\<lambda>x. - feature_area x) (sort_key (\<lambda>x. - feature_area x) xs))"
    by (rule sorted_sort_key)
  then show ?thesis by (simp add: sorted_wrt_map)
qed

lemma written_clean:
  "written (create_clean_film_islands (Parsed features) film_file) = Some out
     \<longleftrightarrow> clean_film_islands features (get_film_islands film_file) = Inr out"
  by (auto simp: create_clean_film_islands_def load_geojson_def Let_def
      split: sum.splits option.splits)

lemma clean_film_islands_again:
  assumes "clean_film_islands features film_islands = Inr out"
  shows "clean_film_islands out film_islands = Inr out"
proof -
  let ?ws = "winners features film_islands"
  let ?key = "\<lambda>x. - feature_area x"
  have out: "out = sort_key ?key (map with_provenance ?ws)"
    and declared: "\<forall>w \<in> set ?ws. declared_area w \<noteq> None"
    using clean_film_islands_Inr [OF assms] by simp_all
  have set_out: "set out = with_provenance ` set ?ws"
    by (rule set_clean_output [OF assms])
  have targets: "\<forall>x \<in> set out. is_target_island x film_islands"
    using winners_target by (auto simp: set_out)
  have "distinct (map canonical_key (map with_provenance ?ws))"
    using winners_distinct [of features film_islands] by (simp add: comp_def)
  then have "distinct (map with_provenance ?ws) \<and> inj_on canonical_key (set (map with_provenance ?ws))"
    by (simp only: distinct_map)
  then have "distinct out \<and> inj_on canonical_key (set out)"
    by (simp add: out)
  then have keys: "distinct (map canonical_key out)"
    by (simp only: distinct_map)
  have "island_groups_of out film_islands = map (\<lambda>x. (canonical_key x, group_of x)) out"
    using targets keys by (rule island_groups_fresh)
  then have again: "winners out film_islands = out"
    by (simp add: winners_def comp_def group_of_def)
  have fixed: "map with_provenance out = out"
    by (rule map_idI) (auto simp: set_out)
  have "\<forall>w \<in> set (winners out film_islands). declared_area w \<noteq> None"
    using declared by (auto simp: again set_out)
  then have "clean_film_islands out film_islands = Inr (sort_key ?key out)"
    using clean_film_islands_total [of out film_islands] by (simp add: again fixed)
  moreover have "sort_key ?key out = out"
    unfolding out by (rule sort_key_id_if_sorted) (rule sorted_sort_key)
  ultimately show ?thesis by simp
qed

lemma relevant_feature_name:
  "relevant_feature T f = Inr x \<Longrightarrow> lowered_name x = lowered_name f"
  by (auto simp: relevant_feature_def lowered_name_def feature_name_def split: option.splits sum.splits)

lemma example_run: "clean_film_islands example_features example_film_islands = Inr example_output"
  by code_simp

lemma example_film_run:
  "film_relevant_islands [example_feature ''Tahiti'' 1045] {''Rapa Nui''} = Inr [example_tahiti_output]"
  by code_simp


section \<open>The claims about the filters\<close>

text \<open>
  C1. The output holds at most one feature per canonical key, and every key of a
  matching feature is there. The feature kept for a key is, with its provenance
  properties added, the matching feature of that key with the largest area; among
  several of that area it is the first in input order: every candidate before it is
  strictly smaller, none after it is larger.
\<close>

theorem clean_film_islands_keeps_first_largest:
  assumes "clean_film_islands features film_islands = Inr out"
  shows "distinct (map canonical_key out)
    \<and> (\<forall>f \<in> set features. is_target_island f film_islands \<longrightarrow>
          canonical_key f \<in> canonical_key ` set out)
    \<and> (\<forall>x \<in> set out. \<exists>pre w post.
          candidates film_islands (canonical_key x) features = pre @ w # post
          \<and> x = with_provenance w
          \<and> (\<forall>g \<in> set pre. feature_area g < feature_area w)
          \<and> (\<forall>g \<in> set post. feature_area g \<le> feature_area w))"
proof (intro conjI ballI impI)
  let ?ws = "winners features film_islands"
  have out: "out = sort_key (\<lambda>x. - feature_area x) (map with_provenance ?ws)"
    using clean_film_islands_Inr [OF assms] by simp
  have set_out: "set out = with_provenance ` set ?ws"
    by (rule set_clean_output [OF assms])
  have "distinct (map canonical_key (map with_provenance ?ws))"
    using winners_distinct [of features film_islands] by (simp add: comp_def)
  then have "distinct (map with_provenance ?ws) \<and> inj_on canonical_key (set (map with_provenance ?ws))"
    by (simp only: distinct_map)
  then have "distinct out \<and> inj_on canonical_key (set out)"
    by (simp add: out)
  then show "distinct (map canonical_key out)"
    by (simp only: distinct_map)
  {
    fix f assume "f \<in> set features" and "is_target_island f film_islands"
    then have "canonical_key f \<in> canonical_key ` set ?ws"
      by (rule winners_cover)
    then show "canonical_key f \<in> canonical_key ` set out"
      by (simp add: set_out image_image)
  }
  {
    fix x assume "x \<in> set out"
    then obtain w where w: "w \<in> set ?ws" and x: "x = with_provenance w"
      by (auto simp: set_out)
    have "first_largest (candidates film_islands (canonical_key w) features) w"
      using w by (rule winners_first_largest)
    then obtain pre post where
      "candidates film_islands (canonical_key w) features = pre @ w # post"
      "\<forall>g \<in> set pre. feature_area g < feature_area w"
      "\<forall>g \<in> set post. feature_area g \<le> feature_area w"
      unfolding first_largest_def by blast
    then show "\<exists>pre w post.
          candidates film_islands (canonical_key x) features = pre @ w # post
          \<and> x = with_provenance w
          \<and> (\<forall>g \<in> set pre. feature_area g < feature_area w)
          \<and> (\<forall>g \<in> set post. feature_area g \<le> feature_area w)"
      using x by (intro exI [of _ pre] exI [of _ w] exI [of _ post]) simp
  }
qed

theorem clean_film_islands_keeps_first_largest_witness:
  "clean_film_islands example_features example_film_islands = Inr example_output
   \<and> distinct (map canonical_key example_output)
   \<and> canonical_key (example_feature ''Rapa Nui'' 163.6) \<in> canonical_key ` set example_output
   \<and> (\<exists>pre w post.
          candidates example_film_islands
            (canonical_key (with_provenance (example_feature ''Easter Island'' 163.6)))
            example_features = pre @ w # post
          \<and> with_provenance (example_feature ''Easter Island'' 163.6) = with_provenance w
          \<and> (\<forall>g \<in> set pre. feature_area g < feature_area w)
          \<and> (\<forall>g \<in> set post. feature_area g \<le> feature_area w))"
proof -
  have run: "clean_film_islands example_features example_film_islands = Inr example_output"
    by (rule example_run)
  have member: "example_feature ''Rapa Nui'' 163.6 \<in> set example_features"
    by (simp add: example_features_def)
  have target: "is_target_island (example_feature ''Rapa Nui'' 163.6) example_film_islands"
    by code_simp
  have kept: "with_provenance (example_feature ''Easter Island'' 163.6) \<in> set example_output"
    by (simp add: example_output_def)
  show ?thesis
    using run member target kept clean_film_islands_keeps_first_largest [OF run] by blast
qed

text \<open>
  C2, as the code has it. Every feature in the output of the clean filter has a
  normalized name that is the normalized form of a film island. The filter of
  create-film-islands.py admits a feature for a second reason as well: its lowercased,
  trimmed name contains, or is contained in, the lowercased name of a key Pacific island.
\<close>

theorem output_features_have_a_reason:
  "(clean_film_islands features film_islands = Inr out \<longrightarrow>
      (\<forall>x \<in> set out. \<exists>target \<in> film_islands.
          normalize_island_name target = normalize_island_name (feature_name x)))
   \<and> (film_relevant_islands features film_islands = Inr out' \<longrightarrow>
      (\<forall>x \<in> set out'.
          (\<exists>film_island \<in> film_islands.
              normalize_island_name_film film_island = normalize_island_name_film (feature_name x))
          \<or> (\<exists>key_island \<in> set key_islands.
                is_substr (lower key_island) (strip (lower (feature_name x)))
                \<or> is_substr (strip (lower (feature_name x))) (lower key_island))))"
proof (intro conjI impI ballI)
  fix x assume run: "clean_film_islands features film_islands = Inr out" and x: "x \<in> set out"
  then obtain w where "w \<in> set (winners features film_islands)" and "x = with_provenance w"
    using set_clean_output [OF run] by auto
  then have "\<exists>target \<in> film_islands. normalize_island_name target = canonical_key x"
    using winner_matches by simp
  then show "\<exists>target \<in> film_islands.
      normalize_island_name target = normalize_island_name (feature_name x)"
    by (simp add: canonical_key_def lowered_name_def normalize_lowered)
next
  fix x assume run: "film_relevant_islands features film_islands = Inr out'" and x: "x \<in> set out'"
  then have "collect (relevant_feature film_islands)
      (filter (\<lambda>feature. is_relevant_island feature film_islands key_islands) features) = Inr out'"
    by (simp add: film_relevant_islands_def)
  from collect_Inr_member [OF this x]
  obtain f where f: "is_relevant_island f film_islands key_islands"
    and fx: "relevant_feature film_islands f = Inr x"
    by auto
  have "lowered_name x = lowered_name f" using fx by (rule relevant_feature_name)
  then have "(\<exists>film_island \<in> film_islands.
              normalize_island_name_film film_island = canonical_key_film x)
          \<or> (\<exists>key_island \<in> set key_islands.
                is_substr (lower key_island) (lowered_name x)
                \<or> is_substr (lowered_name x) (lower key_island))"
    using f by (simp add: is_relevant_island_def canonical_key_film_def Let_def)
  then show "(\<exists>film_island \<in> film_islands.
              normalize_island_name_film film_island = normalize_island_name_film (feature_name x))
          \<or> (\<exists>key_island \<in> set key_islands.
                is_substr (lower key_island) (strip (lower (feature_name x)))
                \<or> is_substr (strip (lower (feature_name x))) (lower key_island))"
    by (simp add: canonical_key_film_def lowered_name_def normalize_film_lowered)
qed

theorem output_features_have_a_reason_witness:
  "clean_film_islands example_features example_film_islands = Inr example_output
   \<and> (\<exists>target \<in> example_film_islands.
          normalize_island_name target
            = normalize_island_name (feature_name (with_provenance (example_feature ''Oahu'' 1545))))
   \<and> film_relevant_islands [example_feature ''Tahiti'' 1045] {''Rapa Nui''} = Inr [example_tahiti_output]
   \<and> ((\<exists>film_island \<in> {''Rapa Nui''}.
          normalize_island_name_film film_island
            = normalize_island_name_film (feature_name example_tahiti_output))
        \<or> (\<exists>key_island \<in> set key_islands.
              is_substr (lower key_island) (strip (lower (feature_name example_tahiti_output)))
              \<or> is_substr (strip (lower (feature_name example_tahiti_output))) (lower key_island)))"
proof -
  have kept: "with_provenance (example_feature ''Oahu'' 1545) \<in> set example_output"
    by (simp add: example_output_def)
  have kept': "example_tahiti_output \<in> set [example_tahiti_output]"
    by simp
  show ?thesis
    using example_run example_film_run kept kept'
      output_features_have_a_reason [of example_features example_film_islands example_output
        "[example_tahiti_output]"]
      output_features_have_a_reason [of "[example_feature ''Tahiti'' 1045]" "{''Rapa Nui''}"
        "[example_tahiti_output]" "[example_tahiti_output]"]
    by blast
qed

theorem key_island_without_reference_counterexample:
  "film_relevant_islands [example_feature ''Tahiti'' 1045] {''Rapa Nui''} = Inr [example_tahiti_output]
   \<and> normalize_island_name_film ''Rapa Nui''
       \<noteq> normalize_island_name_film (feature_name example_tahiti_output)"
  by code_simp

text \<open>
  C6. Running the filter on its own output, with the same film islands, gives that
  output again: the same features, in the same order. So a run of the script on the
  file it wrote, with the same film data, writes the same file and ends the same way.
\<close>

theorem clean_film_islands_idempotent:
  "(clean_film_islands features film_islands = Inr out \<longrightarrow>
      clean_film_islands out film_islands = Inr out)
   \<and> (written (create_clean_film_islands (Parsed features) film_file) = Some out \<longrightarrow>
      create_clean_film_islands (Parsed out) film_file
        = create_clean_film_islands (Parsed features) film_file)"
proof (intro conjI impI)
  assume "clean_film_islands features film_islands = Inr out"
  then show "clean_film_islands out film_islands = Inr out"
    by (rule clean_film_islands_again)
next
  assume "written (create_clean_film_islands (Parsed features) film_file) = Some out"
  then have first: "clean_film_islands features (get_film_islands film_file) = Inr out"
    by (simp add: written_clean)
  then have "clean_film_islands out (get_film_islands film_file) = Inr out"
    by (rule clean_film_islands_again)
  then show "create_clean_film_islands (Parsed out) film_file
        = create_clean_film_islands (Parsed features) film_file"
    using first by (simp add: create_clean_film_islands_def load_geojson_def)
qed

theorem clean_film_islands_idempotent_witness:
  "clean_film_islands example_features example_film_islands = Inr example_output
   \<and> clean_film_islands example_output example_film_islands = Inr example_output
   \<and> written (create_clean_film_islands (Parsed example_features) (Parsed example_films))
       = Some example_output
   \<and> create_clean_film_islands (Parsed example_output) (Parsed example_films)
       = create_clean_film_islands (Parsed example_features) (Parsed example_films)"
proof -
  have run: "clean_film_islands example_features example_film_islands = Inr example_output"
    by (rule example_run)
  have films: "get_film_islands (Parsed example_films) = example_film_islands"
    by code_simp
  have top: "written (create_clean_film_islands (Parsed example_features) (Parsed example_films))
      = Some example_output"
    using run by (simp add: written_clean films)
  show ?thesis
    using run top
      clean_film_islands_idempotent [of example_features example_film_islands example_output]
      clean_film_islands_idempotent [of example_features _ example_output "Parsed example_films"]
    by blast
qed

text \<open>
  C7. Whenever the filter produces its output, the output is in descending order of
  area, and every feature in it declares the area it is ordered by. It produces its
  output at least whenever every input feature declares an area.
\<close>

theorem clean_film_islands_sorted_descending:
  "((\<forall>f \<in> set features. declared_area f \<noteq> None) \<longrightarrow>
      (\<exists>out. clean_film_islands features film_islands = Inr out))
   \<and> (\<forall>out. clean_film_islands features film_islands = Inr out \<longrightarrow>
        sorted_wrt (\<lambda>x y. feature_area x \<ge> feature_area y) out
        \<and> (\<forall>x \<in> set out. declared_area x = Some (feature_area x)))"
proof (intro conjI impI allI)
  assume "\<forall>f \<in> set features. declared_area f \<noteq> None"
  then have "\<forall>w \<in> set (winners features film_islands). declared_area w \<noteq> None"
    using winners_target by blast
  then show "\<exists>out. clean_film_islands features film_islands = Inr out"
    using clean_film_islands_total by blast
next
  fix out assume run: "clean_film_islands features film_islands = Inr out"
  then show "sorted_wrt (\<lambda>x y. feature_area x \<ge> feature_area y) out"
    using clean_film_islands_Inr [OF run] sorted_descending by simp
next
  fix out assume run: "clean_film_islands features film_islands = Inr out"
  have "\<forall>w \<in> set (winners features film_islands). declared_area w \<noteq> None"
    using clean_film_islands_Inr [OF run] by simp
  then have "\<forall>x \<in> set out. declared_area x \<noteq> None"
    using set_clean_output [OF run] by auto
  then show "\<forall>x \<in> set out. declared_area x = Some (feature_area x)"
    by (auto simp: declared_area_def feature_area_def split: option.splits)
qed

theorem clean_film_islands_sorted_descending_witness:
  "clean_film_islands example_features example_film_islands = Inr example_output
   \<and> sorted_wrt (\<lambda>x y. feature_area x \<ge> feature_area y) example_output
   \<and> declared_area (with_provenance (example_feature ''Oahu'' 1545))
       = Some (feature_area (with_provenance (example_feature ''Oahu'' 1545)))"
proof -
  have declared: "\<forall>f \<in> set example_features. declared_area f \<noteq> None"
    by code_simp
  have run: "clean_film_islands example_features example_film_islands = Inr example_output"
    by (rule example_run)
  have kept: "with_provenance (example_feature ''Oahu'' 1545) \<in> set example_output"
    by (simp add: example_output_def)
  show ?thesis
    using declared run kept
      clean_film_islands_sorted_descending [of example_features example_film_islands]
    by blast
qed

text \<open>
  C9. A film-data file that is missing or is not JSON is loaded as the empty list, so
  there is no film island, and the run on any feature collection then writes an output
  of zero features and returns normally. A feature file that is missing or is not JSON
  is loaded as \<open>None\<close>, and the run returns at once, without an exception and without
  output.
\<close>

theorem unreadable_input_gives_empty_result:
  "(film_file = Missing \<or> film_file = Unparsable \<longrightarrow>
      load_film_data film_file = []
      \<and> get_film_islands film_file = {}
      \<and> create_clean_film_islands (Parsed features) film_file =
          \<lparr>written = Some [], outcome = Inr (Some ''clean-film-islands.geojson'')\<rparr>)
   \<and> (geojson_file = Missing \<or> geojson_file = Unparsable \<longrightarrow>
      load_geojson geojson_file = None
      \<and> create_clean_film_islands geojson_file any_film_file =
          \<lparr>written = None, outcome = Inr None\<rparr>)"
proof (intro conjI impI)
  assume bad: "film_file = Missing \<or> film_file = Unparsable"
  then show films: "load_film_data film_file = []"
    by (auto simp: load_film_data_def)
  then show none: "get_film_islands film_file = {}"
    by (simp add: get_film_islands_def List.map_filter_simps)
  have "\<And>G f. group_step {} G f = G"
    by (simp add: group_step_def is_target_island_def)
  then have "\<And>fs. foldl (group_step {}) [] fs = []"
    by (induct_tac fs rule: rev_induct) simp_all
  then have "clean_film_islands features {} = Inr []"
    by (simp add: clean_film_islands_def island_groups_of_def sort_by_area_def)
  then show "create_clean_film_islands (Parsed features) film_file =
          \<lparr>written = Some [], outcome = Inr (Some ''clean-film-islands.geojson'')\<rparr>"
    by (simp add: create_clean_film_islands_def load_geojson_def none report_def)
next
  assume bad: "geojson_file = Missing \<or> geojson_file = Unparsable"
  then show "load_geojson geojson_file = None"
    by (auto simp: load_geojson_def)
  then show "create_clean_film_islands geojson_file any_film_file =
          \<lparr>written = None, outcome = Inr None\<rparr>"
    by (simp add: create_clean_film_islands_def)
qed

theorem unreadable_input_gives_empty_result_witness:
  "load_film_data Unparsable = []
   \<and> get_film_islands Unparsable = {}
   \<and> create_clean_film_islands (Parsed example_features) Unparsable =
        \<lparr>written = Some [], outcome = Inr (Some ''clean-film-islands.geojson'')\<rparr>
   \<and> load_geojson (Missing :: feature list json_file) = None
   \<and> create_clean_film_islands Missing (Parsed [\<lparr>title = ''Moana'', island = Some ''Rapa Nui ''\<rparr>]) =
        \<lparr>written = None, outcome = Inr None\<rparr>"
  using unreadable_input_gives_empty_result
    [of Unparsable example_features Missing "Parsed [\<lparr>title = ''Moana'', island = Some ''Rapa Nui ''\<rparr>]"]
  by simp


section \<open>The loop over the pages\<close>

lemma fetch_loop_exchange:
  "exchange server n token ps ending \<Longrightarrow>
     fetch_loop server n token acc =
       Some (Left_loop (acc @ concat (map page_records ps)) (n + requests_of ps ending))"
proof (induction ps arbitrary: n token acc)
  case Nil
  then show ?case
    by (cases ending) (auto simp: fetch_loop.simps [of server n token acc] requests_of_def
        status_of_def split: response.splits)
next
  case (Cons p ps)
  then have step: "fetch_loop server n token acc =
      fetch_loop server (Suc n) (offset p) (acc @ page_records p)"
    by (simp add: fetch_loop.simps [of server n token acc])
  show ?case
    using Cons.IH [of "Suc n" "offset p" "acc @ page_records p"] Cons.prems
    by (simp add: step requests_of_def)
qed

lemma export_exchange:
  assumes "server 0 None = Response 200 (Some p)"
    and "exchange server 1 (offset p) ps ending"
  shows "export_table_data server =
     Some \<lparr>returned = concat (map page_records (p # ps)),
           json_written = Some (concat (map page_records (p # ps))),
           csv_written = (if concat (map page_records (p # ps)) \<noteq> []
                          then Some (map row_of (concat (map page_records (p # ps)))) else None),
           requests = Suc (requests_of ps ending)\<rparr>"
  using fetch_loop_exchange [OF assms(2), of "page_records p"] assms(1)
  by (simp add: export_table_data_def)

lemma exit_of_exchangeI:
  "exchange server n token ps ending \<Longrightarrow> all_records = acc @ concat (map page_records ps) \<Longrightarrow>
   m = n + requests_of ps ending \<Longrightarrow> exit_of_exchange server n token acc (Left_loop all_records m)"
  unfolding exit_of_exchange_def by (simp only: loop_exit.case) blast

lemma fetch_loop_is_exchange:
  assumes "fetch_loop server n token acc = Some r"
  shows "exit_of_exchange server n token acc r"
  using assms
proof (induction rule: fetch_loop.raw_induct [rotated, consumes 1, case_names step])
  case (step loop server n token acc r)
  show ?case
  proof (cases r)
    case (Raised m)
    then show ?thesis by (simp add: exit_of_exchange_def)
  next
    case (Left_loop all_records m)
    show ?thesis
    proof (cases "truthy token")
      case False
      then have "all_records = acc" and "m = n"
        using step(2) Left_loop by simp_all
      then show ?thesis
        unfolding Left_loop using False
        by (intro exit_of_exchangeI [of _ _ _ "[]" None]) (simp_all add: requests_of_def)
    next
      case True
      show ?thesis
      proof (cases "server n token")
        case ConnectionError
        then show ?thesis using step(2) True Left_loop by simp
      next
        case (Response status_code body)
        show ?thesis
        proof (cases "status_code = 200")
          case False
          then have "all_records = acc" and "m = Suc n"
            using step(2) True Left_loop Response by simp_all
          then show ?thesis
            unfolding Left_loop using True False Response
            by (intro exit_of_exchangeI [of _ _ _ "[]" "Some status_code"])
              (simp_all add: requests_of_def status_of_def)
        next
          case ok: True
          show ?thesis
          proof (cases body)
            case None
            then show ?thesis using step(2) True Left_loop Response ok by simp
          next
            case (Some data)
            then have rec: "loop server (Suc n) (offset data) (acc @ page_records data) = Some r"
              using step(2) True Response ok by simp
            from step(1) [OF rec] obtain ps ending where
              ex: "exchange server (Suc n) (offset data) ps ending"
              and recs: "all_records = (acc @ page_records data) @ concat (map page_records ps)"
              and m: "m = Suc n + requests_of ps ending"
              unfolding Left_loop exit_of_exchange_def by auto
            show ?thesis
              unfolding Left_loop using ex recs m True Response ok Some
              by (intro exit_of_exchangeI [of _ _ _ "data # ps" ending]) (simp_all add: requests_of_def)
          qed
        qed
      qed
    qed
  qed
qed

lemma export_is_exchange:
  assumes "export_table_data server = Some e" and "json_written e \<noteq> None"
  shows "\<exists>p ps ending. server 0 None = Response 200 (Some p)
           \<and> exchange server 1 (offset p) ps ending
           \<and> returned e = concat (map page_records (p # ps))
           \<and> requests e = Suc (requests_of ps ending)"
proof -
  from assms obtain p all_records n where
    first: "server 0 None = Response 200 (Some p)"
    and loop: "fetch_loop server 1 (offset p) (page_records p) = Some (Left_loop all_records n)"
    and e: "returned e = all_records" "requests e = n"
    by (auto simp: export_table_data_def nothing_exported_def
        split: response.splits if_splits option.splits loop_exit.splits)
  from fetch_loop_is_exchange [OF loop] obtain ps ending where
    "exchange server 1 (offset p) ps ending"
    "all_records = page_records p @ concat (map page_records ps)"
    "n = 1 + requests_of ps ending"
    unfolding exit_of_exchange_def by auto
  then show ?thesis using first e by auto
qed

lemma example_server_first: "example_server 0 None = Response 200 (Some example_page1)"
  by (simp add: example_server_def example_page1_def)

lemma example_server_second:
  "example_server 1 (offset example_page1) = Response 200 (Some example_page2)"
  by (simp add: example_server_def example_page1_def example_page2_def)

lemma example_server_exchange: "exchange example_server 1 (offset example_page1) [example_page2] None"
  using example_server_second by (simp add: truthy_def example_page1_def example_page2_def)

lemma example_failing_server_first:
  "example_failing_server 0 None = Response 200 (Some example_short_page)"
  by (simp add: example_failing_server_def example_short_page_def)

lemma example_failing_server_exchange:
  "exchange example_failing_server 1 (offset example_short_page) [] (Some 429)"
  by (simp add: example_failing_server_def example_short_page_def truthy_def status_of_def)


section \<open>The claims about the export\<close>

text \<open>
  C4. When the server answers the requests of an export with the pages \<open>p # ps\<close>, in this
  order, and the export then ends (the last page has no token, or the next request is
  refused), the records returned are the records of these pages, concatenated in the
  order the pages were fetched. Every export that returns after writing its JSON file
  is of this kind.
\<close>

theorem accumulation_is_concatenation_in_fetch_order:
  "(server 0 None = Response 200 (Some p) \<and> exchange server 1 (offset p) ps ending \<longrightarrow>
      (\<exists>e. export_table_data server = Some e
          \<and> returned e = concat (map page_records (p # ps))
          \<and> json_written e = Some (concat (map page_records (p # ps)))
          \<and> requests e = Suc (requests_of ps ending)))
   \<and> (export_table_data server = Some e' \<and> json_written e' \<noteq> None \<longrightarrow>
      (\<exists>p' ps' ending'. server 0 None = Response 200 (Some p')
          \<and> exchange server 1 (offset p') ps' ending'
          \<and> returned e' = concat (map page_records (p' # ps'))
          \<and> requests e' = Suc (requests_of ps' ending')))"
proof (intro conjI impI)
  assume "server 0 None = Response 200 (Some p) \<and> exchange server 1 (offset p) ps ending"
  then show "\<exists>e. export_table_data server = Some e
          \<and> returned e = concat (map page_records (p # ps))
          \<and> json_written e = Some (concat (map page_records (p # ps)))
          \<and> requests e = Suc (requests_of ps ending)"
    using export_exchange [of server p ps ending] by simp
next
  assume "export_table_data server = Some e' \<and> json_written e' \<noteq> None"
  then show "\<exists>p' ps' ending'. server 0 None = Response 200 (Some p')
          \<and> exchange server 1 (offset p') ps' ending'
          \<and> returned e' = concat (map page_records (p' # ps'))
          \<and> requests e' = Suc (requests_of ps' ending')"
    using export_is_exchange [of server e'] by blast
qed

theorem accumulation_is_concatenation_in_fetch_order_witness:
  "example_server 0 None = Response 200 (Some example_page1)
   \<and> exchange example_server 1 (offset example_page1) [example_page2] None
   \<and> (\<exists>e. export_table_data example_server = Some e
         \<and> returned e = concat (map page_records [example_page1, example_page2])
         \<and> json_written e \<noteq> None
         \<and> requests e = 2
         \<and> (\<exists>p' ps' ending'. example_server 0 None = Response 200 (Some p')
               \<and> exchange example_server 1 (offset p') ps' ending'
               \<and> returned e = concat (map page_records (p' # ps'))
               \<and> requests e = Suc (requests_of ps' ending')))"
proof -
  obtain e where e: "export_table_data example_server = Some e"
    "returned e = concat (map page_records [example_page1, example_page2])"
    "json_written e = Some (concat (map page_records [example_page1, example_page2]))"
    "requests e = Suc (requests_of [example_page2] None)"
    using accumulation_is_concatenation_in_fetch_order
      [of example_server example_page1 "[example_page2]" None]
      example_server_first example_server_exchange
    by blast
  have written: "json_written e \<noteq> None" using e(3) by simp
  have count: "requests e = 2" using e(4) by (simp add: requests_of_def)
  have "\<exists>p' ps' ending'. example_server 0 None = Response 200 (Some p')
          \<and> exchange example_server 1 (offset p') ps' ending'
          \<and> returned e = concat (map page_records (p' # ps'))
          \<and> requests e = Suc (requests_of ps' ending')"
    using accumulation_is_concatenation_in_fetch_order [of example_server _ _ _ e] e(1) written
    by blast
  then show ?thesis
    using example_server_first example_server_exchange e(1,2) written count by blast
qed

text \<open>
  C5. When the first response carries 100 records and a continuation token, and the
  response to the request with that token carries 37 records and no token, the export
  ends after exactly 2 requests and returns, and writes, exactly 137 records.
\<close>

theorem two_page_fetch:
  assumes "server 0 None = Response 200 (Some p1)"
    and "length (page_records p1) = 100"
    and "truthy (offset p1)"
    and "server 1 (offset p1) = Response 200 (Some p2)"
    and "length (page_records p2) = 37"
    and "offset p2 = None"
  shows "\<exists>e. export_table_data server = Some e
           \<and> requests e = 2
           \<and> length (returned e) = 137
           \<and> json_written e = Some (returned e)
           \<and> returned e = page_records p1 @ page_records p2"
proof -
  have "exchange server 1 (offset p1) [p2] None"
    using assms(3,4,6) by (simp add: truthy_def)
  from export_exchange [OF assms(1) this] show ?thesis
    using assms(2,5) by (simp add: requests_of_def)
qed

theorem two_page_fetch_witness:
  "example_server 0 None = Response 200 (Some example_page1)
   \<and> length (page_records example_page1) = 100
   \<and> truthy (offset example_page1)
   \<and> example_server 1 (offset example_page1) = Response 200 (Some example_page2)
   \<and> length (page_records example_page2) = 37
   \<and> offset example_page2 = None
   \<and> (\<exists>e. export_table_data example_server = Some e
         \<and> requests e = 2
         \<and> length (returned e) = 137
         \<and> json_written e = Some (returned e)
         \<and> returned e = page_records example_page1 @ page_records example_page2)"
proof -
  have h2: "length (page_records example_page1) = 100"
    by (simp add: page_records_def example_page1_def)
  have h3: "truthy (offset example_page1)"
    by (simp add: truthy_def example_page1_def)
  have h5: "length (page_records example_page2) = 37"
    by (simp add: page_records_def example_page2_def)
  have h6: "offset example_page2 = None"
    by (simp add: example_page2_def)
  show ?thesis
    using example_server_first h2 h3 example_server_second h5 h6
      two_page_fetch [OF example_server_first h2 h3 example_server_second h5 h6]
    by blast
qed

text \<open>
  C10. When the first page is served, further pages may follow, and then a request is
  answered with a status other than 200, the export stops asking and keeps what it has:
  the records of the pages served are returned and written to the JSON file, and their
  rows are written to the CSV file (which is written only when there is a record).
\<close>

theorem partial_result_is_persisted:
  assumes "server 0 None = Response 200 (Some p)"
    and "exchange server 1 (offset p) ps (Some status_code)"
  shows "export_table_data server =
     Some \<lparr>returned = concat (map page_records (p # ps)),
           json_written = Some (concat (map page_records (p # ps))),
           csv_written = (if concat (map page_records (p # ps)) \<noteq> []
                          then Some (map row_of (concat (map page_records (p # ps)))) else None),
           requests = length ps + 2\<rparr>"
  using export_exchange [OF assms] by (simp add: requests_of_def)

theorem partial_result_is_persisted_witness:
  "example_failing_server 0 None = Response 200 (Some example_short_page)
   \<and> exchange example_failing_server 1 (offset example_short_page) [] (Some 429)
   \<and> export_table_data example_failing_server =
       Some \<lparr>returned = [example_record, example_record],
             json_written = Some [example_record, example_record],
             csv_written = Some [row_of example_record, row_of example_record],
             requests = 2\<rparr>"
  using example_failing_server_first example_failing_server_exchange
    partial_result_is_persisted [OF example_failing_server_first example_failing_server_exchange]
  by (simp add: page_records_def example_short_page_def)


section \<open>The claim about the access token\<close>

text \<open>
  C8. The constructor of the explorer accepts exactly the tokens that start with \<open>pat\<close>;
  without a token, with an empty one or with one of another form it raises its
  configuration error. The constructor of the exporter accepts every non-empty token:
  with the token \<open>keyA1b2C3d4E5f6G7\<close> in the environment, which the explorer refuses, it
  raises nothing and keeps the token.
\<close>

theorem exporter_accepts_token_without_prefix:
  "(airtable_explorer_init env = Inr api_key
      \<longleftrightarrow> env = Some api_key \<and> startswith api_key ''pat'')
   \<and> (airtable_to_baserow_init env = Inr api_key
      \<longleftrightarrow> env = Some api_key \<and> api_key \<noteq> [])
   \<and> startswith ''keyA1b2C3d4E5f6G7'' ''pat'' = False
   \<and> airtable_explorer_init (Some ''keyA1b2C3d4E5f6G7'') =
       Inl (ValueError (''Invalid API key format. Should start with '' @ [CHR 0x27] @ ''pat'' @ [CHR 0x27]))
   \<and> airtable_to_baserow_init (Some ''keyA1b2C3d4E5f6G7'') = Inr ''keyA1b2C3d4E5f6G7''"
proof (intro conjI)
  show "airtable_explorer_init env = Inr api_key
      \<longleftrightarrow> env = Some api_key \<and> startswith api_key ''pat''"
    by (auto simp: airtable_explorer_init_def startswith_def split: option.splits)
  show "airtable_to_baserow_init env = Inr api_key
      \<longleftrightarrow> env = Some api_key \<and> api_key \<noteq> []"
    by (auto simp: airtable_to_baserow_init_def split: option.splits)
qed (simp_all add: startswith_def airtable_explorer_init_def airtable_to_baserow_init_def)

end
